theory Spec2Isabelle
  imports Main "HOL-Library.Word"
begin

section \<open>Data model of \<open>src/core/login/pin2.js\<close>\<close>

text \<open>
  A \<open>Uint8Array\<close> is a list of bytes. An \<open>EdgeBox\<close> is the envelope that
  \<open>encrypt\<close> returns; its layout belongs to the crypto module, so it is kept opaque.
  A JavaScript error is an \<open>Error\<close> object carrying its message; a \<open>TypeError\<close>
  is what the language itself raises (destructuring \<open>undefined\<close>, \<open>new URL\<close> on a
  string that is no URL).
\<close>

type_synonym bytes = "8 word list"

datatype EdgeBox = EdgeBox bytes

datatype error = Error string | TypeError string

text \<open>
  \<open>LoginStash\<close> and \<open>LoginTree\<close> are trees of objects. Only the fields that
  \<open>pin2.js\<close> reads are kept. A field that may be \<open>undefined\<close> is an option;
  \<open>children\<close> is optional too, because the source tests \<open>if (loginTree.children)\<close>
  before looping (an array, even an empty one, is truthy).
\<close>

datatype LoginStash = LoginStash
  (stash_loginId: string)
  (stash_appId: string)
  (stash_username: "string option")
  (stash_pin2Key: "bytes option")
  (stash_pin2TextBox: "EdgeBox option")
  (stash_children: "LoginStash list option")

datatype LoginTree = LoginTree
  (loginId: string)
  (appId: string)
  (username: "string option")
  (loginKey: bytes)
  (pin: "string option")
  (pin2Key: "bytes option")
  (children: "LoginTree list option")

text \<open>
  A patch is a partial object that \<open>applyKits\<close> spreads over a node. A property can be
  missing from the patch (the node keeps its value) or present, possibly with the value
  \<open>undefined\<close> (the node's value is overwritten, which clears it).
\<close>

datatype 'a patch_field = Missing | Present "'a option"

record StashPatch =
  sp_pin2Key :: "bytes patch_field"
  sp_pin2TextBox :: "EdgeBox patch_field"

record LoginPatch =
  lp_pin2Key :: "bytes patch_field"
  lp_pin :: "string patch_field"

text \<open>The object handed to \<open>wasChangePin2Payload\<close>, and the kit itself.\<close>

record ChangePin2Payload =
  pin2Id_of :: "bytes option"
  pin2Auth_of :: "bytes option"
  pin2Box_of :: "EdgeBox option"
  pin2KeyBox_of :: "EdgeBox option"
  pin2TextBox_of :: EdgeBox

record 'j LoginKit =
  serverMethod :: "string option"
  serverPath :: string
  server :: "'j option"
  stash :: StashPatch
  login :: LoginPatch
  kit_loginId :: string

record LoginRequestBody =
  req_pin2Id :: "bytes option"
  req_pin2Auth :: "bytes option"
  req_otp :: "string option"

record LoginPayload =
  reply_pin2Box :: "EdgeBox option"

record Account =
  acct_loginTree :: LoginTree
  acct_username :: string

text \<open>
  Everything \<open>pin2.js\<close> imports or reaches through \<open>ai.props\<close> and that is defined
  outside the file is a field of this record. \<open>'w\<close> is the state of the outside
  world (the entropy source behind \<open>io.random\<close>, the redux state, the network);
  \<open>'j\<close> is the wire form that \<open>wasChangePin2Payload\<close> produces. \<open>encrypt\<close>
  takes \<open>io\<close> as its first argument in the source, so it threads the world.
\<close>

record ('w, 'j) Deps =
  io_random :: "nat \<Rightarrow> 'w \<Rightarrow> bytes \<times> 'w"
  encrypt :: "bytes \<Rightarrow> bytes \<Rightarrow> 'w \<Rightarrow> EdgeBox \<times> 'w"
  decrypt :: "EdgeBox \<Rightarrow> bytes \<Rightarrow> error + bytes"
  hmacSha256 :: "bytes \<Rightarrow> bytes \<Rightarrow> bytes"
  utf8_parse :: "string \<Rightarrow> bytes"
  fixUsername :: "string \<Rightarrow> string"
  wasChangePin2Payload :: "ChangePin2Payload \<Rightarrow> 'j"
  getStash :: "'w \<Rightarrow> string \<Rightarrow> LoginStash"
  getLoginOtp :: "LoginTree \<Rightarrow> string option"
  accounts :: "'w \<Rightarrow> string \<Rightarrow> Account option"

section \<open>Derived identification and proof values\<close>

definition pin2Id :: "('w, 'j) Deps \<Rightarrow> bytes \<Rightarrow> string \<Rightarrow> bytes" where
  "pin2Id d key uname =
     (let data = utf8_parse d (fixUsername d uname) in hmacSha256 d data key)"

definition pin2Auth :: "('w, 'j) Deps \<Rightarrow> bytes \<Rightarrow> string \<Rightarrow> bytes" where
  "pin2Auth d key p = hmacSha256 d (utf8_parse d p) key"

section \<open>Finding the local credential\<close>

text \<open>
  Modelled from the spec: \<open>searchTree\<close> lives in \<open>login.js\<close>, which is not among the
  sources. The spec describes it as a pre-order traversal (visit the node, then its
  children left to right) that returns the first node satisfying the predicate, or
  nothing.
\<close>

fun searchTree :: "LoginStash \<Rightarrow> (LoginStash \<Rightarrow> bool) \<Rightarrow> LoginStash option"
  and searchChildren :: "LoginStash list option \<Rightarrow> (LoginStash \<Rightarrow> bool) \<Rightarrow> LoginStash option"
  where
  "searchTree (LoginStash i a u k b cs) p =
     (if p (LoginStash i a u k b cs) then Some (LoginStash i a u k b cs)
      else searchChildren cs p)"
| "searchChildren None p = None"
| "searchChildren (Some []) p = None"
| "searchChildren (Some (c # cs)) p =
     (case searchTree c p of
        Some out \<Rightarrow> Some out
      | None \<Rightarrow> searchChildren (Some cs) p)"

definition findPin2Stash :: "LoginStash \<Rightarrow> string \<Rightarrow> LoginStash option" where
  "findPin2Stash stashTree app =
     (if stash_pin2Key stashTree \<noteq> None then Some stashTree
      else (case searchTree stashTree (\<lambda>s. stash_appId s = app) of
              Some s \<Rightarrow> (if stash_pin2Key s \<noteq> None then Some s else None)
            | None \<Rightarrow> None))"

text \<open>The nodes of a stash tree in pre-order: the node, then each child's subtree.\<close>

fun stash_preorder :: "LoginStash \<Rightarrow> LoginStash list"
  and stash_preorder_children :: "LoginStash list option \<Rightarrow> LoginStash list" where
  "stash_preorder (LoginStash i a u k b cs) =
     LoginStash i a u k b cs # stash_preorder_children cs"
| "stash_preorder_children None = []"
| "stash_preorder_children (Some []) = []"
| "stash_preorder_children (Some (c # cs)) =
     stash_preorder c @ stash_preorder_children (Some cs)"

text \<open>The descendants of a node are the nodes of its subtree other than itself.\<close>

definition stash_descendants :: "LoginStash \<Rightarrow> LoginStash list" where
  "stash_descendants t = stash_preorder_children (stash_children t)"

text \<open>
  The reading of the specification's sentence about \<open>findLocalCredential\<close>: the root
  when it carries the key, otherwise the first descendant in pre-order whose
  \<open>appId\<close> matches and which carries the key, otherwise nothing.
\<close>

definition spec_findLocalCredential :: "LoginStash \<Rightarrow> string \<Rightarrow> LoginStash option" where
  "spec_findLocalCredential t app =
     (if stash_pin2Key t \<noteq> None then Some t
      else List.find (\<lambda>s. stash_appId s = app \<and> stash_pin2Key s \<noteq> None)
             (stash_descendants t))"

section \<open>Logging in with a PIN\<close>

text \<open>
  \<open>serverLogin\<close> (from \<open>login.js\<close>) is a parameter: it receives the stash tree, the
  stash node, the options, the request and the decrypt step, and either rejects or
  resolves with a login tree. The decrypt step is the arrow function that
  \<open>loginPin2\<close> passes, closed over \<open>pin2Key\<close>.
\<close>

definition loginPin2_decrypt ::
  "('w, 'j) Deps \<Rightarrow> bytes \<Rightarrow> LoginPayload \<Rightarrow> error + bytes" where
  "loginPin2_decrypt d key reply =
     (case reply_pin2Box reply of
        None \<Rightarrow> Inl (Error ''Missing data for PIN v2 login'')
      | Some box \<Rightarrow> decrypt d box key)"

definition loginPin2 ::
  "('w, 'j) Deps \<Rightarrow>
   (LoginStash \<Rightarrow> LoginStash \<Rightarrow> 'o \<Rightarrow> LoginRequestBody \<Rightarrow>
      (LoginPayload \<Rightarrow> error + bytes) \<Rightarrow> 'w \<Rightarrow> (error + LoginTree) \<times> 'w) \<Rightarrow>
   string \<Rightarrow> string \<Rightarrow> string \<Rightarrow> 'o \<Rightarrow> 'w \<Rightarrow> (error + LoginTree) \<times> 'w" where
  "loginPin2 d serverLogin app uname pn opts w =
     (let stashTree = getStash d w uname in
      case findPin2Stash stashTree app of
        None \<Rightarrow>
          (Inl (Error ''PIN login is not enabled for this account on this device''), w)
      | Some st \<Rightarrow>
          (case stash_pin2Key st of
             None \<Rightarrow>
               (Inl (Error ''PIN login is not enabled for this account on this device''), w)
           | Some key \<Rightarrow>
               let request = \<lparr> req_pin2Id = Some (pin2Id d key uname),
                               req_pin2Auth = Some (pin2Auth d key pn),
                               req_otp = None \<rparr>
               in serverLogin stashTree st opts request (loginPin2_decrypt d key) w))"

section \<open>Building kits\<close>

definition makeChangePin2Kit ::
  "('w, 'j) Deps \<Rightarrow> LoginTree \<Rightarrow> string \<Rightarrow> string \<Rightarrow> bool \<Rightarrow> 'w \<Rightarrow> 'j LoginKit \<times> 'w"
  where
  "makeChangePin2Kit d lg uname pn enableLogin w =
     (let (pin2TextBox, w1) = encrypt d (utf8_parse d pn) (loginKey lg) w in
      if enableLogin then
        let (key, w2) = (case pin2Key lg of Some k \<Rightarrow> (k, w1) | None \<Rightarrow> io_random d 32 w1);
            (pin2Box, w3) = encrypt d (loginKey lg) key w2;
            (pin2KeyBox, w4) = encrypt d key (loginKey lg) w3
        in (\<lparr> serverMethod = None,
               serverPath = ''/v2/login/pin2'',
               server = Some (wasChangePin2Payload d
                 \<lparr> pin2Id_of = Some (pin2Id d key uname),
                   pin2Auth_of = Some (pin2Auth d key pn),
                   pin2Box_of = Some pin2Box,
                   pin2KeyBox_of = Some pin2KeyBox,
                   pin2TextBox_of = pin2TextBox \<rparr>),
               stash = \<lparr> sp_pin2Key = Present (Some key),
                         sp_pin2TextBox = Present (Some pin2TextBox) \<rparr>,
               login = \<lparr> lp_pin2Key = Present (Some key), lp_pin = Present (Some pn) \<rparr>,
               kit_loginId = loginId lg \<rparr>, w4)
      else
        (\<lparr> serverMethod = None,
            serverPath = ''/v2/login/pin2'',
            server = Some (wasChangePin2Payload d
              \<lparr> pin2Id_of = None,
                pin2Auth_of = None,
                pin2Box_of = None,
                pin2KeyBox_of = None,
                pin2TextBox_of = pin2TextBox \<rparr>),
            stash = \<lparr> sp_pin2Key = Present None,
                      sp_pin2TextBox = Present (Some pin2TextBox) \<rparr>,
            login = \<lparr> lp_pin2Key = Present None, lp_pin = Present (Some pn) \<rparr>,
            kit_loginId = loginId lg \<rparr>, w1))"

fun makeChangePin2Kits ::
  "('w, 'j) Deps \<Rightarrow> LoginTree \<Rightarrow> string \<Rightarrow> string \<Rightarrow> bool \<Rightarrow> 'w \<Rightarrow> 'j LoginKit list \<times> 'w"
  and makeChangePin2Kits_children ::
  "('w, 'j) Deps \<Rightarrow> LoginTree list option \<Rightarrow> string \<Rightarrow> string \<Rightarrow> bool \<Rightarrow> 'w \<Rightarrow>
     'j LoginKit list \<times> 'w"
  where
  "makeChangePin2Kits d (LoginTree i a u lk p k cs) uname pn enableLogin w =
     (let (kit, w1) = makeChangePin2Kit d (LoginTree i a u lk p k cs) uname pn enableLogin w;
          (rest, w2) = makeChangePin2Kits_children d cs uname pn enableLogin w1
      in (kit # rest, w2))"
| "makeChangePin2Kits_children d None uname pn enableLogin w = ([], w)"
| "makeChangePin2Kits_children d (Some []) uname pn enableLogin w = ([], w)"
| "makeChangePin2Kits_children d (Some (c # cs)) uname pn enableLogin w =
     (let (kits, w1) = makeChangePin2Kits d c uname pn enableLogin w;
          (rest, w2) = makeChangePin2Kits_children d (Some cs) uname pn enableLogin w1
      in (kits @ rest, w2))"

definition makeDeletePin2Kit :: "LoginTree \<Rightarrow> 'j LoginKit" where
  "makeDeletePin2Kit lg =
     \<lparr> serverMethod = Some ''DELETE'',
       serverPath = ''/v2/login/pin2'',
       server = None,
       stash = \<lparr> sp_pin2Key = Present None, sp_pin2TextBox = Missing \<rparr>,
       login = \<lparr> lp_pin2Key = Present None, lp_pin = Missing \<rparr>,
       kit_loginId = loginId lg \<rparr>"

fun makeDeletePin2Kits :: "LoginTree \<Rightarrow> 'j LoginKit list"
  and makeDeletePin2Kits_children :: "LoginTree list option \<Rightarrow> 'j LoginKit list" where
  "makeDeletePin2Kits (LoginTree i a u lk p k cs) =
     makeDeletePin2Kit (LoginTree i a u lk p k cs) # makeDeletePin2Kits_children cs"
| "makeDeletePin2Kits_children None = []"
| "makeDeletePin2Kits_children (Some []) = []"
| "makeDeletePin2Kits_children (Some (c # cs)) =
     makeDeletePin2Kits c @ makeDeletePin2Kits_children (Some cs)"

text \<open>The nodes of a login tree in pre-order (parent before children, left to right).\<close>

fun preorder :: "LoginTree \<Rightarrow> LoginTree list"
  and preorder_children :: "LoginTree list option \<Rightarrow> LoginTree list" where
  "preorder (LoginTree i a u lk p k cs) = LoginTree i a u lk p k cs # preorder_children cs"
| "preorder_children None = []"
| "preorder_children (Some []) = []"
| "preorder_children (Some (c # cs)) = preorder c @ preorder_children (Some cs)"

section \<open>The top-level operations\<close>

text \<open>
  \<open>applyKits\<close> and \<open>loginFetch\<close> are imported; here they are parameters that take the
  world and return a rejection or a value together with the new world.
  \<open>ai.props.state.accounts[accountId]\<close> is a lookup; destructuring a missing account
  raises a \<open>TypeError\<close>.
\<close>

definition changePin ::
  "('w, 'j) Deps \<Rightarrow> (LoginTree \<Rightarrow> 'j LoginKit list \<Rightarrow> 'w \<Rightarrow> (error + unit) \<times> 'w) \<Rightarrow>
   string \<Rightarrow> string option \<Rightarrow> bool option \<Rightarrow> 'w \<Rightarrow> (error + unit) \<times> 'w" where
  "changePin d applyKits accountId pn enableLogin w =
     (case accounts d w accountId of
        None \<Rightarrow> (Inl (TypeError ''Cannot destructure property of undefined''), w)
      | Some acct \<Rightarrow>
          let loginTree = acct_loginTree acct;
              uname = acct_username acct;
              enableLogin1 =
                (case enableLogin of
                   None \<Rightarrow> pin2Key loginTree \<noteq> None \<or> (pn \<noteq> None \<and> pin loginTree = None)
                 | Some e \<Rightarrow> e);
              pin1 = (case pn of None \<Rightarrow> pin loginTree | Some p \<Rightarrow> Some p)
          in case pin1 of
               None \<Rightarrow>
                 if enableLogin1
                 then (Inl (Error
                   ''Please change your PIN in the settings area above before enabling.''), w)
                 else applyKits loginTree (makeDeletePin2Kits loginTree) w
             | Some p \<Rightarrow>
                 let (kits, w1) = makeChangePin2Kits d loginTree uname p enableLogin1 w
                 in applyKits loginTree kits w1)"

definition checkPin2 ::
  "('w, 'j) Deps \<Rightarrow> (string \<Rightarrow> string \<Rightarrow> LoginRequestBody \<Rightarrow> 'w \<Rightarrow> (error + 'r) \<times> 'w) \<Rightarrow>
   LoginTree \<Rightarrow> string \<Rightarrow> 'w \<Rightarrow> (error + bool) \<times> 'w" where
  "checkPin2 d loginFetch lg pn w =
     (case username lg of
        None \<Rightarrow> (Inr False, w)
      | Some uname \<Rightarrow>
          let stashTree = getStash d w uname in
          case findPin2Stash stashTree (appId lg) of
            None \<Rightarrow> (Inl (Error ''No PIN set locally for this account''), w)
          | Some st \<Rightarrow>
              (case stash_pin2Key st of
                 None \<Rightarrow> (Inl (Error ''No PIN set locally for this account''), w)
               | Some key \<Rightarrow>
                   let request = \<lparr> req_pin2Id = Some (pin2Id d key uname),
                                   req_pin2Auth = Some (pin2Auth d key pn),
                                   req_otp = getLoginOtp d lg \<rparr>
                   in case loginFetch ''POST'' ''/v2/login'' request w of
                        (Inr good, w1) \<Rightarrow> (Inr True, w1)
                      | (Inl bad, w1) \<Rightarrow> (Inr False, w1)))"

definition deletePin ::
  "('w, 'j) Deps \<Rightarrow> (LoginTree \<Rightarrow> 'j LoginKit list \<Rightarrow> 'w \<Rightarrow> (error + unit) \<times> 'w) \<Rightarrow>
   string \<Rightarrow> 'w \<Rightarrow> (error + unit) \<times> 'w" where
  "deletePin d applyKits accountId w =
     (case accounts d w accountId of
        None \<Rightarrow> (Inl (TypeError ''Cannot destructure property of undefined''), w)
      | Some acct \<Rightarrow>
          applyKits (acct_loginTree acct) (makeDeletePin2Kits (acct_loginTree acct)) w)"

section \<open>The Kit Engine\<close>

text \<open>
  Modelled from the spec: \<open>applyKits\<close> lives in \<open>login.js\<close>, which is not among the
  sources. The spec says: iterate the kits in order; for each kit issue the server
  request; on request failure abort the whole operation and signal the failure, kits
  committed before remaining committed; on success merge the stash patch into the
  stash node matching \<open>loginId\<close> and the tree patch into the tree node matching
  \<open>loginId\<close>.

  The three stores are a record: the requests issued to the server so far, the stash
  and the in-memory tree. The server is a parameter that, given the requests already
  issued and the kit now sent, either fails with an error or succeeds.
\<close>

definition merge_field :: "'a patch_field \<Rightarrow> 'a option \<Rightarrow> 'a option" where
  "merge_field f old = (case f of Missing \<Rightarrow> old | Present v \<Rightarrow> v)"

primrec applyStashPatch :: "string \<Rightarrow> StashPatch \<Rightarrow> LoginStash \<Rightarrow> LoginStash" where
  "applyStashPatch lid p (LoginStash i a u k b cs) =
     (if i = lid
      then LoginStash i a u (merge_field (sp_pin2Key p) k) (merge_field (sp_pin2TextBox p) b) cs
      else LoginStash i a u k b (map_option (map (applyStashPatch lid p)) cs))"

primrec applyLoginPatch :: "string \<Rightarrow> LoginPatch \<Rightarrow> LoginTree \<Rightarrow> LoginTree" where
  "applyLoginPatch lid p (LoginTree i a u lk pn k cs) =
     (if i = lid
      then LoginTree i a u lk (merge_field (lp_pin p) pn) (merge_field (lp_pin2Key p) k) cs
      else LoginTree i a u lk pn k (map_option (map (applyLoginPatch lid p)) cs))"

record 'j Stores =
  st_sent :: "'j LoginKit list"
  st_stash :: LoginStash
  st_tree :: LoginTree

definition commitKit :: "'j LoginKit \<Rightarrow> 'j Stores \<Rightarrow> 'j Stores" where
  "commitKit kit s =
     s\<lparr> st_stash := applyStashPatch (kit_loginId kit) (stash kit) (st_stash s),
        st_tree := applyLoginPatch (kit_loginId kit) (login kit) (st_tree s) \<rparr>"

fun applyKits ::
  "('j LoginKit list \<Rightarrow> 'j LoginKit \<Rightarrow> error option) \<Rightarrow> 'j LoginKit list \<Rightarrow> 'j Stores \<Rightarrow>
     (error + unit) \<times> 'j Stores" where
  "applyKits respond [] s = (Inr (), s)"
| "applyKits respond (kit # kits) s =
     (let s1 = s\<lparr> st_sent := st_sent s @ [kit] \<rparr> in
      case respond (st_sent s) kit of
        Some e \<Rightarrow> (Inl e, s1)
      | None \<Rightarrow> applyKits respond kits (commitKit kit s1))"

section \<open>Server validation in \<open>src/core/root.js\<close>\<close>

text \<open>
  The regular expression of \<open>validateServer\<close> is a term of a small datatype of regular
  expressions. \<open>test\<close> on a pattern anchored by \<open>^\<close> and \<open>$\<close> (no flags) decides
  whether the whole string belongs to the pattern's language; the matcher below decides
  it by derivatives. A character class is a list of characters and ranges.
\<close>

datatype class_item = Single char | Range char char

fun in_item :: "char \<Rightarrow> class_item \<Rightarrow> bool" where
  "in_item c (Single a) = (c = a)"
| "in_item c (Range lo hi) =
     ((of_char lo :: nat) \<le> of_char c \<and> (of_char c :: nat) \<le> of_char hi)"

definition in_class :: "char \<Rightarrow> class_item list \<Rightarrow> bool" where
  "in_class c items = list_ex (in_item c) items"

datatype regex =
    Never
  | Empty
  | Chr char
  | OneOf "class_item list"
  | Cat regex regex
  | Or regex regex
  | Rep regex

definition Rep1 :: "regex \<Rightarrow> regex" where
  "Rep1 r = Cat r (Rep r)"

definition Opt :: "regex \<Rightarrow> regex" where
  "Opt r = Or r Empty"

fun Str :: "string \<Rightarrow> regex" where
  "Str [] = Empty"
| "Str (c # cs) = Cat (Chr c) (Str cs)"

fun nullable :: "regex \<Rightarrow> bool" where
  "nullable Never = False"
| "nullable Empty = True"
| "nullable (Chr a) = False"
| "nullable (OneOf items) = False"
| "nullable (Cat r s) = (nullable r \<and> nullable s)"
| "nullable (Or r s) = (nullable r \<or> nullable s)"
| "nullable (Rep r) = True"

fun deriv :: "char \<Rightarrow> regex \<Rightarrow> regex" where
  "deriv c Never = Never"
| "deriv c Empty = Never"
| "deriv c (Chr a) = (if c = a then Empty else Never)"
| "deriv c (OneOf items) = (if in_class c items then Empty else Never)"
| "deriv c (Cat r s) =
     (if nullable r then Or (Cat (deriv c r) s) (deriv c s) else Cat (deriv c r) s)"
| "deriv c (Or r s) = Or (deriv c r) (deriv c s)"
| "deriv c (Rep r) = Cat (deriv c r) (Rep r)"

fun matches :: "regex \<Rightarrow> string \<Rightarrow> bool" where
  "matches r [] = nullable r"
| "matches r (c # cs) = matches (deriv c r) cs"

text \<open>\<open>[A-Za-z0-9_-]\<close> and \<open>/^([A-Za-z0-9_-]+\.)*edge(test)?\.app$/\<close>.\<close>

definition label_class :: "class_item list" where
  "label_class =
     [Range CHR ''A'' CHR ''Z'', Range CHR ''a'' CHR ''z'', Range CHR ''0'' CHR ''9'',
      Single CHR ''_'', Single CHR ''-'']"

definition host_regex :: regex where
  "host_regex =
     Cat (Rep (Cat (Rep1 (OneOf label_class)) (Chr CHR ''.'')))
       (Cat (Str ''edge'') (Cat (Opt (Str ''test'')) (Cat (Chr CHR ''.'') (Str ''app''))))"

text \<open>
  \<open>new URL(server)\<close> is the platform's parser, a parameter here: it fails (a
  \<open>TypeError\<close>) or yields the URL's parts, of which the code reads two.
\<close>

record URL =
  protocol :: string
  hostname :: string

definition validateServer :: "(string \<Rightarrow> URL option) \<Rightarrow> string \<Rightarrow> error + unit" where
  "validateServer parseURL srv =
     (case parseURL srv of
        None \<Rightarrow> Inl (TypeError ''Invalid URL'')
      | Some url \<Rightarrow>
          if protocol url = ''http:'' \<and> hostname url = ''localhost'' then Inr ()
          else if protocol url = ''https:'' \<and> hostname url = ''localhost'' then Inr ()
          else if protocol url = ''https:'' \<and> matches host_regex (hostname url) then Inr ()
          else Inl (Error
            (''Only *.edge.app or localhost are valid login domain names, not '' @
             hostname url)))"

text \<open>
  \<open>makeContext\<close> up to the call of \<open>validateServer\<close>; everything after it (the redux
  store, the files read from disk, the pixie tree) is the parameter \<open>start\<close>, which
  acts on the world.
\<close>

record EdgeContextOptions =
  opt_apiKey :: "string option"
  opt_authServer :: "string option"

definition makeContext ::
  "(string \<Rightarrow> URL option) \<Rightarrow> (string \<Rightarrow> string \<Rightarrow> 'w \<Rightarrow> (error + 'c) \<times> 'w) \<Rightarrow>
   EdgeContextOptions \<Rightarrow> 'w \<Rightarrow> (error + 'c) \<times> 'w" where
  "makeContext parseURL start opts w =
     (let authServer =
            (case opt_authServer opts of None \<Rightarrow> ''https://login.edge.app/api'' | Some a \<Rightarrow> a)
      in case opt_apiKey opts of
           None \<Rightarrow> (Inl (Error ''No API key provided''), w)
         | Some apiKey \<Rightarrow>
             (case validateServer parseURL authServer of
                Inl e \<Rightarrow> (Inl e, w)
              | Inr u \<Rightarrow> start apiKey authServer w))"

text \<open>The language of a regular expression, against which the matcher is justified.\<close>

definition conc :: "string set \<Rightarrow> string set \<Rightarrow> string set" where
  "conc A B = {xs @ ys | xs ys. xs \<in> A \<and> ys \<in> B}"

inductive_set star :: "string set \<Rightarrow> string set" for A :: "string set" where
  star_nil: "[] \<in> star A"
| star_app: "xs \<in> A \<Longrightarrow> ys \<in> star A \<Longrightarrow> xs @ ys \<in> star A"

fun lang :: "regex \<Rightarrow> string set" where
  "lang Never = {}"
| "lang Empty = {[]}"
| "lang (Chr a) = {[a]}"
| "lang (OneOf items) = {[c] | c. in_class c items}"
| "lang (Cat r s) = conc (lang r) (lang s)"
| "lang (Or r s) = lang r \<union> lang s"
| "lang (Rep r) = star (lang r)"

section \<open>A concrete instance of the collaborators\<close>

text \<open>
  A small executable instance on which the theorems below are exercised: the world is a
  counter that every draw of entropy advances, the keyed hash and the boxes are
  concatenations, the wire form is the payload itself, and a username is normalised by
  dropping its blanks.
\<close>

definition demo_stash :: LoginStash where
  "demo_stash =
     LoginStash ''root'' '''' (Some ''alice'') None None
       (Some [LoginStash ''c1'' ''other'' None None None None,
              LoginStash ''c2'' ''app'' None (Some [7]) None None])"

definition demo_tree :: LoginTree where
  "demo_tree =
     LoginTree ''root'' '''' (Some ''alice'') [1] None None
       (Some [LoginTree ''c1'' ''other'' None [2] None (Some [9]) None,
              LoginTree ''c2'' ''app'' None [3] None None (Some [])])"

definition demo_deps :: "(nat, ChangePin2Payload) Deps" where
  "demo_deps =
     \<lparr> io_random = (\<lambda>n w. (replicate n (of_nat w), Suc w)),
       encrypt = (\<lambda>data key w. (EdgeBox (of_nat w # key @ data), Suc w)),
       decrypt = (\<lambda>box key. case box of EdgeBox b \<Rightarrow> Inr (drop (Suc (length key)) b)),
       hmacSha256 = (\<lambda>data key. key @ data),
       utf8_parse = map of_char,
       fixUsername = filter (\<lambda>c. c \<noteq> CHR '' ''),
       wasChangePin2Payload = (\<lambda>p. p),
       getStash = (\<lambda>w u. demo_stash),
       getLoginOtp = (\<lambda>lg. None),
       accounts = (\<lambda>w a. if a = ''acct''
                          then Some \<lparr> acct_loginTree = demo_tree, acct_username = ''alice'' \<rparr>
                          else None) \<rparr>"

definition demo_url :: "string \<Rightarrow> URL option" where
  "demo_url s =
     (if s = ''https://login.edge.app/api''
      then Some \<lparr> protocol = ''https:'', hostname = ''login.edge.app'' \<rparr>
      else if s = ''http://login.edge.app/api''
      then Some \<lparr> protocol = ''http:'', hostname = ''login.edge.app'' \<rparr>
      else if s = ''http://localhost:8080''
      then Some \<lparr> protocol = ''http:'', hostname = ''localhost'' \<rparr>
      else None)"

definition demo_login :: LoginTree where
  "demo_login = LoginTree ''c2'' ''app'' (Some ''alice'') [3] None None None"

definition demo_loginFetch ::
  "string \<Rightarrow> string \<Rightarrow> LoginRequestBody \<Rightarrow> nat \<Rightarrow> (error + unit) \<times> nat" where
  "demo_loginFetch method path req w =
     (if req_pin2Auth req = Some (7 # map of_char ''1234'')
      then (Inr (), Suc w)
      else (Inl (Error ''Invalid PIN''), Suc w))"

definition demo_serverLogin ::
  "LoginStash \<Rightarrow> LoginStash \<Rightarrow> unit \<Rightarrow> LoginRequestBody \<Rightarrow>
   (LoginPayload \<Rightarrow> error + bytes) \<Rightarrow> nat \<Rightarrow> (error + LoginTree) \<times> nat" where
  "demo_serverLogin stashTree st opts req decryptReply w =
     (case decryptReply \<lparr> reply_pin2Box = Some (EdgeBox [0, 7, 3]) \<rparr> of
        Inl e \<Rightarrow> (Inl e, Suc w)
      | Inr key \<Rightarrow>
          (Inr (LoginTree (stash_loginId st) (stash_appId st) (stash_username stashTree)
                  key None (stash_pin2Key st) None), Suc w))"

definition demo_applyKits ::
  "LoginTree \<Rightarrow> ChangePin2Payload LoginKit list \<Rightarrow> nat \<Rightarrow> (error + unit) \<times> nat" where
  "demo_applyKits tree kits w = (Inr (), w + length kits)"

definition demo_respond ::
  "ChangePin2Payload LoginKit list \<Rightarrow> ChangePin2Payload LoginKit \<Rightarrow> error option" where
  "demo_respond sent kit =
     (if kit_loginId kit = ''c1'' then Some (Error ''Network failure'') else None)"

definition demo_kits :: "ChangePin2Payload LoginKit list" where
  "demo_kits =
     [makeDeletePin2Kit (LoginTree ''c2'' ''app'' None [3] None None (Some [])),
      makeDeletePin2Kit (LoginTree ''c1'' ''other'' None [2] None (Some [9]) None),
      makeDeletePin2Kit demo_tree]"

definition demo_start :: "string \<Rightarrow> string \<Rightarrow> nat \<Rightarrow> (error + string) \<times> nat" where
  "demo_start apiKey authServer w = (Inr authServer, Suc w)"

section \<open>What the kits of a tree look like\<close>

text \<open>
  What enabling does at a node when the world is \<open>w\<close>, written out step by step.
  The pin is encrypted first, at \<open>w\<close>. The credential key is the node's own
  \<open>pin2Key\<close> when it has one; otherwise it is the 32 bytes that \<open>io.random\<close> yields
  at the world the first encryption left behind, a draw that advances the world. The
  two remaining boxes are encrypted after that, one after the other.
\<close>

definition enable_key :: "('w, 'j) Deps \<Rightarrow> string \<Rightarrow> LoginTree \<Rightarrow> 'w \<Rightarrow> bytes" where
  "enable_key d pn node w =
     (case pin2Key node of
        Some k \<Rightarrow> k
      | None \<Rightarrow> fst (io_random d 32 (snd (encrypt d (utf8_parse d pn) (loginKey node) w))))"

definition enable_world_keyed :: "('w, 'j) Deps \<Rightarrow> string \<Rightarrow> LoginTree \<Rightarrow> 'w \<Rightarrow> 'w" where
  "enable_world_keyed d pn node w =
     (case pin2Key node of
        Some k \<Rightarrow> snd (encrypt d (utf8_parse d pn) (loginKey node) w)
      | None \<Rightarrow> snd (io_random d 32 (snd (encrypt d (utf8_parse d pn) (loginKey node) w))))"

definition enable_world_after :: "('w, 'j) Deps \<Rightarrow> string \<Rightarrow> LoginTree \<Rightarrow> 'w \<Rightarrow> 'w" where
  "enable_world_after d pn node w =
     snd (encrypt d (enable_key d pn node w) (loginKey node)
            (snd (encrypt d (loginKey node) (enable_key d pn node w)
                    (enable_world_keyed d pn node w))))"

text \<open>
  The enabling kit of a node built at world \<open>w\<close>: it is addressed to the node, its
  tree patch carries the pin and the key, its stash patch carries the key and the
  encrypted pin, and its server body wraps all five values, every one of them pinned
  to the world at which the code computes it.
\<close>

definition enabling_kit ::
  "('w, 'j) Deps \<Rightarrow> string \<Rightarrow> string \<Rightarrow> LoginTree \<Rightarrow> 'w \<Rightarrow> 'j LoginKit \<Rightarrow> bool" where
  "enabling_kit d uname pn node w kit \<longleftrightarrow>
     (let key = enable_key d pn node w;
          w2 = enable_world_keyed d pn node w;
          textBox = fst (encrypt d (utf8_parse d pn) (loginKey node) w);
          box = fst (encrypt d (loginKey node) key w2);
          keyBox = fst (encrypt d key (loginKey node) (snd (encrypt d (loginKey node) key w2)))
      in kit_loginId kit = loginId node \<and>
         login kit = \<lparr> lp_pin2Key = Present (Some key), lp_pin = Present (Some pn) \<rparr> \<and>
         stash kit = \<lparr> sp_pin2Key = Present (Some key),
                        sp_pin2TextBox = Present (Some textBox) \<rparr> \<and>
         server kit = Some (wasChangePin2Payload d
           \<lparr> pin2Id_of = Some (pin2Id d key uname),
             pin2Auth_of = Some (pin2Auth d key pn),
             pin2Box_of = Some box,
             pin2KeyBox_of = Some keyBox,
             pin2TextBox_of = textBox \<rparr>))"

text \<open>
  The worlds at which the nodes of a tree are reached when enabling walks it in
  pre-order, each node starting where the previous one stopped, together with the world
  left after the last node.
\<close>

fun enable_worlds :: "('w, 'j) Deps \<Rightarrow> string \<Rightarrow> LoginTree \<Rightarrow> 'w \<Rightarrow> 'w list \<times> 'w"
  and enable_worlds_children ::
    "('w, 'j) Deps \<Rightarrow> string \<Rightarrow> LoginTree list option \<Rightarrow> 'w \<Rightarrow> 'w list \<times> 'w" where
  "enable_worlds d pn (LoginTree i a u lk p k cs) w =
     (let (ws, w') =
            enable_worlds_children d pn cs
              (enable_world_after d pn (LoginTree i a u lk p k cs) w)
      in (w # ws, w'))"
| "enable_worlds_children d pn None w = ([], w)"
| "enable_worlds_children d pn (Some []) w = ([], w)"
| "enable_worlds_children d pn (Some (c # cs)) w =
     (let (ws1, w1) = enable_worlds d pn c w;
          (ws2, w2) = enable_worlds_children d pn (Some cs) w1
      in (ws1 @ ws2, w2))"

text \<open>
  The kit that disabling builds for a node when the world is \<open>w\<close>: the payload has
  only \<open>pin2TextBox\<close>, the pin encrypted under the node's \<open>loginKey\<close>; both patches
  clear \<open>pin2Key\<close>, and the stash patch carries the same box.
\<close>

definition disabling_kit ::
  "('w, 'j) Deps \<Rightarrow> string \<Rightarrow> LoginTree \<Rightarrow> 'w \<Rightarrow> 'j LoginKit \<Rightarrow> bool" where
  "disabling_kit d pn node w kit \<longleftrightarrow>
     (let box = fst (encrypt d (utf8_parse d pn) (loginKey node) w) in
      kit_loginId kit = loginId node \<and>
      server kit = Some (wasChangePin2Payload d
        \<lparr> pin2Id_of = None, pin2Auth_of = None, pin2Box_of = None, pin2KeyBox_of = None,
          pin2TextBox_of = box \<rparr>) \<and>
      stash kit = \<lparr> sp_pin2Key = Present None, sp_pin2TextBox = Present (Some box) \<rparr> \<and>
      login kit = \<lparr> lp_pin2Key = Present None, lp_pin = Present (Some pn) \<rparr>)"

section \<open>Properties of the search\<close>

lemma find_app:
  "List.find p (xs @ ys) = (case List.find p xs of Some x \<Rightarrow> Some x | None \<Rightarrow> List.find p ys)"
  by (induction xs) auto

lemma searchTree_find:
  "searchTree t p = List.find p (stash_preorder t)"
  "searchChildren cs p = List.find p (stash_preorder_children cs)"
  by (induction t p and cs p rule: searchTree_searchChildren.induct)
     (auto simp: find_app split: option.splits)

lemma findPin2Stash_has_key:
  "findPin2Stash t app = Some s \<Longrightarrow> stash_pin2Key s \<noteq> None"
  by (auto simp: findPin2Stash_def split: if_splits option.splits)

text \<open>
  C2, as the code has it: \<open>findPin2Stash\<close> returns the root when the root carries
  \<open>pin2Key\<close>; otherwise it takes the first node in pre-order, the root included, whose
  \<open>appId\<close> matches, and returns that node if it carries \<open>pin2Key\<close> and nothing if it
  does not (it does not look further). In particular, for a root without the key whose
  \<open>appId\<close> does not match, and two children of which the first has no matching node
  in its subtree and the second has the matching \<open>appId\<close> and a key, it returns the
  second child.
\<close>

theorem findPin2Stash_first_match:
  "findPin2Stash t app =
     (if stash_pin2Key t \<noteq> None then Some t
      else case List.find (\<lambda>s. stash_appId s = app) (stash_preorder t) of
             Some s \<Rightarrow> if stash_pin2Key s \<noteq> None then Some s else None
           | None \<Rightarrow> None)
   \<and> (stash_pin2Key t = None \<and> stash_appId t \<noteq> app \<and> stash_children t = Some [c1, c2] \<and>
      (\<forall>s \<in> set (stash_preorder c1). stash_appId s \<noteq> app) \<and>
      stash_appId c2 = app \<and> stash_pin2Key c2 \<noteq> None
      \<longrightarrow> findPin2Stash t app = Some c2)"
proof (intro conjI impI)
  show "findPin2Stash t app =
     (if stash_pin2Key t \<noteq> None then Some t
      else case List.find (\<lambda>s. stash_appId s = app) (stash_preorder t) of
             Some s \<Rightarrow> if stash_pin2Key s \<noteq> None then Some s else None
           | None \<Rightarrow> None)"
    by (simp add: findPin2Stash_def searchTree_find)
next
  assume h: "stash_pin2Key t = None \<and> stash_appId t \<noteq> app \<and> stash_children t = Some [c1, c2] \<and>
      (\<forall>s \<in> set (stash_preorder c1). stash_appId s \<noteq> app) \<and>
      stash_appId c2 = app \<and> stash_pin2Key c2 \<noteq> None"
  obtain i2 a2 u2 k2 b2 cs2 where c2: "c2 = LoginStash i2 a2 u2 k2 b2 cs2" by (cases c2)
  obtain i a u k b cs where t: "t = LoginStash i a u k b cs" by (cases t)
  from h have none1: "List.find (\<lambda>s. stash_appId s = app) (stash_preorder c1) = None"
    by (simp add: find_None_iff)
  from h have "searchTree t (\<lambda>s. stash_appId s = app) = Some c2"
    by (simp add: t c2 searchTree_find(1)[of c1] none1)
  with h show "findPin2Stash t app = Some c2"
    by (simp add: findPin2Stash_def)
qed

text \<open>The theorem at the demo stash: the second child is found.\<close>

theorem findPin2Stash_witness:
  "findPin2Stash demo_stash ''app'' = Some (LoginStash ''c2'' ''app'' None (Some [7]) None None)"
  using findPin2Stash_first_match [of demo_stash "''app''"
     "LoginStash ''c1'' ''other'' None None None None"
     "LoginStash ''c2'' ''app'' None (Some [7]) None None"]
  by (simp add: demo_stash_def)

text \<open>
  C2 as the specification words it fails when the root has the requested \<open>appId\<close>
  but no key: the search stops at the root, and the keyed second child is not returned.
\<close>

theorem findPin2Stash_counterexample:
  "findPin2Stash
     (LoginStash ''root'' ''app'' None None None
        (Some [LoginStash ''c1'' ''other'' None None None None,
               LoginStash ''c2'' ''app'' None (Some [7]) None None])) ''app'' = None
   \<and> spec_findLocalCredential
     (LoginStash ''root'' ''app'' None None None
        (Some [LoginStash ''c1'' ''other'' None None None None,
               LoginStash ''c2'' ''app'' None (Some [7]) None None])) ''app''
     = Some (LoginStash ''c2'' ''app'' None (Some [7]) None None)"
  by (simp add: findPin2Stash_def spec_findLocalCredential_def stash_descendants_def)

text \<open>
  C9: \<open>pin2Id\<close> is a function of the key and of the normalised username only: two
  usernames with the same normal form give the same identifier under every key.
\<close>

theorem pin2Id_normalized:
  "fixUsername d u1 = fixUsername d u2 \<Longrightarrow> pin2Id d key u1 = pin2Id d key u2"
  by (simp add: pin2Id_def)

text \<open>Two spellings of one username in the demo instance.\<close>

theorem pin2Id_normalized_witness:
  "fixUsername demo_deps ''al ice'' = fixUsername demo_deps ''alice '' \<and>
   pin2Id demo_deps [1, 2] ''al ice'' = pin2Id demo_deps [1, 2] ''alice ''"
proof -
  have h: "fixUsername demo_deps ''al ice'' = fixUsername demo_deps ''alice ''"
    by (simp add: demo_deps_def)
  show ?thesis using h pin2Id_normalized [OF h, of "[1, 2]"] by simp
qed

section \<open>Properties of the kit builders\<close>

lemma makeChangePin2Kit_enabling:
  "enabling_kit d uname pn lg w (fst (makeChangePin2Kit d lg uname pn True w))"
  "snd (makeChangePin2Kit d lg uname pn True w) = enable_world_after d pn lg w"
  by (simp_all add: makeChangePin2Kit_def enabling_kit_def enable_key_def
        enable_world_keyed_def enable_world_after_def Let_def split_beta
        split: option.splits)

lemma enable_worlds_length:
  "length (fst (enable_worlds d pn t w)) = length (preorder t)"
  "length (fst (enable_worlds_children d pn cs w)) = length (preorder_children cs)"
  by (induction t and cs arbitrary: w and w rule: preorder_preorder_children.induct)
     (simp_all add: split_beta)

lemma makeChangePin2Kits_enabling:
  "list_all2 (\<lambda>(node, w') kit. enabling_kit d uname pn node w' kit)
     (zip (preorder t) (fst (enable_worlds d pn t w)))
     (fst (makeChangePin2Kits d t uname pn True w)) \<and>
   snd (makeChangePin2Kits d t uname pn True w) = snd (enable_worlds d pn t w)"
  "list_all2 (\<lambda>(node, w') kit. enabling_kit d uname pn node w' kit)
     (zip (preorder_children cs) (fst (enable_worlds_children d pn cs w)))
     (fst (makeChangePin2Kits_children d cs uname pn True w)) \<and>
   snd (makeChangePin2Kits_children d cs uname pn True w) =
     snd (enable_worlds_children d pn cs w)"
proof (induction t and cs arbitrary: w and w rule: preorder_preorder_children.induct)
  case (1 i a u lk p k cs)
  let ?node = "LoginTree i a u lk p k cs"
  show ?case
    using makeChangePin2Kit_enabling[where d = d and uname = uname and pn = pn and lg = ?node
        and w = w]
      "1.IH"[of "enable_world_after d pn ?node w"]
    by (simp add: split_beta)
next
  case 2
  show ?case by simp
next
  case 3
  show ?case by simp
next
  case (4 c cs)
  have len: "length (preorder c) = length (fst (enable_worlds d pn c w))"
    by (simp add: enable_worlds_length(1))
  show ?case
    using "4.IH"(1)[of w] "4.IH"(2)[of "snd (enable_worlds d pn c w)"]
    by (simp add: split_beta zip_append[OF len] list_all2_appendI)
qed

lemma makeChangePin2Kit_disabling:
  "disabling_kit d pn lg w (fst (makeChangePin2Kit d lg uname pn False w))"
  by (simp add: disabling_kit_def makeChangePin2Kit_def split: prod.splits)

lemma makeChangePin2Kits_disabling:
  "list_all2 (\<lambda>node kit. \<exists>w'. disabling_kit d pn node w' kit) (preorder t)
           (fst (makeChangePin2Kits d t uname pn False w))"
  "list_all2 (\<lambda>node kit. \<exists>w'. disabling_kit d pn node w' kit) (preorder_children cs)
           (fst (makeChangePin2Kits_children d cs uname pn False w))"
proof (induction t and cs arbitrary: w and w rule: preorder_preorder_children.induct)
  case (1 i a u lk p k cs)
  let ?node = "LoginTree i a u lk p k cs"
  obtain kit w1 where k: "makeChangePin2Kit d ?node uname pn False w = (kit, w1)"
    by (cases "makeChangePin2Kit d ?node uname pn False w")
  obtain rest w2 where r: "makeChangePin2Kits_children d cs uname pn False w1 = (rest, w2)"
    by (cases "makeChangePin2Kits_children d cs uname pn False w1")
  have "disabling_kit d pn ?node w kit"
    using makeChangePin2Kit_disabling[of d pn ?node w uname] k by simp
  then have "\<exists>w'. disabling_kit d pn ?node w' kit" ..
  moreover have
    "list_all2 (\<lambda>node kit. \<exists>w'. disabling_kit d pn node w' kit) (preorder_children cs) rest"
    using "1.IH"[of w1] r by simp
  ultimately show ?case by (simp add: k r)
next
  case 2
  show ?case by simp
next
  case 3
  show ?case by simp
next
  case (4 c cs)
  obtain kits w1 where k: "makeChangePin2Kits d c uname pn False w = (kits, w1)"
    by (cases "makeChangePin2Kits d c uname pn False w")
  obtain rest w2 where r:
    "makeChangePin2Kits_children d (Some cs) uname pn False w1 = (rest, w2)"
    by (cases "makeChangePin2Kits_children d (Some cs) uname pn False w1")
  have "list_all2 (\<lambda>node kit. \<exists>w'. disabling_kit d pn node w' kit) (preorder c) kits"
    using "4.IH"(1)[of w] k by simp
  moreover have "list_all2 (\<lambda>node kit. \<exists>w'. disabling_kit d pn node w' kit)
                   (preorder_children (Some cs)) rest"
    using "4.IH"(2)[of w1] r by simp
  ultimately show ?case by (simp add: k r list_all2_appendI)
qed

lemma makeDeletePin2Kits_map:
  "(makeDeletePin2Kits t :: 'j LoginKit list) = map makeDeletePin2Kit (preorder t)"
  "(makeDeletePin2Kits_children cs :: 'j LoginKit list) =
     map makeDeletePin2Kit (preorder_children cs)"
  by (induction t and cs rule: makeDeletePin2Kits_makeDeletePin2Kits_children.induct) simp_all

text \<open>
  C3: with \<open>enableLogin\<close> true, and an \<open>io.random\<close> that returns as many bytes as
  asked, \<open>makeChangePin2Kits\<close> yields exactly one kit per node of the tree, in
  pre-order, and the kit of each node is the enabling kit built at the world at which
  the walk reaches that node. So every kit carries the pin; its key is the node's
  existing \<open>pin2Key\<close> when there is one, and otherwise the 32 bytes that \<open>io.random\<close>
  yields at the world left by that node's own \<open>pin2TextBox\<close> encryption, a world that
  the draws of all earlier nodes have already advanced; and its server body has all
  five wrapped values.
\<close>

theorem makeChangePin2Kits_enable:
  assumes "\<forall>n w. length (fst (io_random d n w)) = n"
  shows "length (fst (makeChangePin2Kits d t uname pn True w)) = length (preorder t) \<and>
         length (fst (enable_worlds d pn t w)) = length (preorder t) \<and>
         list_all2
           (\<lambda>(node, w') kit.
              enabling_kit d uname pn node w' kit \<and>
              lp_pin (login kit) = Present (Some pn) \<and>
              (case pin2Key node of
                 Some k \<Rightarrow> sp_pin2Key (stash kit) = Present (Some k)
               | None \<Rightarrow>
                   sp_pin2Key (stash kit) =
                     Present (Some (fst (io_random d 32
                       (snd (encrypt d (utf8_parse d pn) (loginKey node) w'))))) \<and>
                   length (fst (io_random d 32
                       (snd (encrypt d (utf8_parse d pn) (loginKey node) w')))) = 32))
           (zip (preorder t) (fst (enable_worlds d pn t w)))
           (fst (makeChangePin2Kits d t uname pn True w)) \<and>
         snd (makeChangePin2Kits d t uname pn True w) = snd (enable_worlds d pn t w)"
proof -
  let ?kits = "fst (makeChangePin2Kits d t uname pn True w)"
  let ?at = "zip (preorder t) (fst (enable_worlds d pn t w))"
  have base: "list_all2 (\<lambda>(node, w') kit. enabling_kit d uname pn node w' kit) ?at ?kits"
    and world: "snd (makeChangePin2Kits d t uname pn True w) = snd (enable_worlds d pn t w)"
    using makeChangePin2Kits_enabling(1)[of d uname pn t w] by simp_all
  have wl: "length (fst (enable_worlds d pn t w)) = length (preorder t)"
    by (rule enable_worlds_length(1))
  have kl: "length ?kits = length (preorder t)"
    using list_all2_lengthD[OF base] wl by simp
  have step: "\<And>node w' kit. enabling_kit d uname pn node w' kit \<Longrightarrow>
      lp_pin (login kit) = Present (Some pn) \<and>
      (case pin2Key node of
         Some k \<Rightarrow> sp_pin2Key (stash kit) = Present (Some k)
       | None \<Rightarrow>
           sp_pin2Key (stash kit) =
             Present (Some (fst (io_random d 32
               (snd (encrypt d (utf8_parse d pn) (loginKey node) w'))))) \<and>
           length (fst (io_random d 32
               (snd (encrypt d (utf8_parse d pn) (loginKey node) w')))) = 32)"
    using assms
    by (auto simp: enabling_kit_def enable_key_def Let_def split: option.splits)
  have full: "list_all2
           (\<lambda>(node, w') kit.
              enabling_kit d uname pn node w' kit \<and>
              lp_pin (login kit) = Present (Some pn) \<and>
              (case pin2Key node of
                 Some k \<Rightarrow> sp_pin2Key (stash kit) = Present (Some k)
               | None \<Rightarrow>
                   sp_pin2Key (stash kit) =
                     Present (Some (fst (io_random d 32
                       (snd (encrypt d (utf8_parse d pn) (loginKey node) w'))))) \<and>
                   length (fst (io_random d 32
                       (snd (encrypt d (utf8_parse d pn) (loginKey node) w')))) = 32))
           ?at ?kits"
    using base step by (rule_tac list_all2_mono[where P = "\<lambda>(node, w') kit.
        enabling_kit d uname pn node w' kit"]) auto
  from kl wl full world show ?thesis by blast
qed

text \<open>
  The demo tree (a root and two children, the first child already keyed). The walk
  reaches the three nodes at worlds 0, 4 and 7; the root and the second child draw
  their keys at worlds 1 and 8, so the two keys differ, and the first child keeps its
  own.
\<close>

theorem makeChangePin2Kits_enable_witness:
  "length (fst (makeChangePin2Kits demo_deps demo_tree ''alice'' ''1234'' True 0)) = 3 \<and>
   fst (enable_worlds demo_deps ''1234'' demo_tree 0) = [0, 4, 7] \<and>
   map (\<lambda>kit. sp_pin2Key (stash kit))
     (fst (makeChangePin2Kits demo_deps demo_tree ''alice'' ''1234'' True 0)) =
     [Present (Some (replicate 32 1)), Present (Some [9]), Present (Some (replicate 32 8))]"
proof -
  have h: "\<forall>n w. length (fst (io_random demo_deps n w)) = n"
    by (simp add: demo_deps_def)
  have n: "preorder demo_tree =
      [demo_tree, LoginTree ''c1'' ''other'' None [2] None (Some [9]) None,
       LoginTree ''c2'' ''app'' None [3] None None (Some [])]"
    by (simp add: demo_tree_def)
  have ws: "fst (enable_worlds demo_deps ''1234'' demo_tree 0) = [0, 4, 7]"
    by (simp add: demo_tree_def demo_deps_def enable_world_after_def enable_key_def
          enable_world_keyed_def)
  have r: "pin2Key demo_tree = None" "loginKey demo_tree = [1]"
    by (simp_all add: demo_tree_def)
  have e: "\<And>data key w. encrypt demo_deps data key w = (EdgeBox (of_nat w # key @ data), Suc w)"
    "\<And>n w. io_random demo_deps n w = (replicate n (of_nat w), Suc w)"
    by (simp_all add: demo_deps_def)
  note t = makeChangePin2Kits_enable [OF h, of demo_tree "''alice''" "''1234''" 0]
  from t have len:
    "length (fst (makeChangePin2Kits demo_deps demo_tree ''alice'' ''1234'' True 0)) = 3"
    by (simp add: n)
  then obtain k1 k2 k3 where ks:
    "fst (makeChangePin2Kits demo_deps demo_tree ''alice'' ''1234'' True 0) = [k1, k2, k3]"
    by (auto simp: length_Suc_conv numeral_3_eq_3)
  from t have "sp_pin2Key (stash k1) = Present (Some (replicate 32 1)) \<and>
      sp_pin2Key (stash k2) = Present (Some [9]) \<and>
      sp_pin2Key (stash k3) = Present (Some (replicate 32 8))"
    unfolding ks ws n by (simp add: r e)
  with len ws show ?thesis by (simp add: ks)
qed

text \<open>
  C4: with \<open>enableLogin\<close> false, the kit of a node has a server payload in which
  \<open>pin2Id\<close>, \<open>pin2Auth\<close>, \<open>pin2Box\<close> and \<open>pin2KeyBox\<close> are absent and
  \<open>pin2TextBox\<close> is the pin encrypted under the node's \<open>loginKey\<close>; its stash and
  tree patches clear \<open>pin2Key\<close>, and the stash patch carries the same
  \<open>pin2TextBox\<close>. Over a tree, every node gets such a kit, in pre-order.
\<close>

theorem makeChangePin2Kit_disable:
  "disabling_kit d pn lg w (fst (makeChangePin2Kit d lg uname pn False w)) \<and>
   list_all2 (\<lambda>node kit. \<exists>w'. disabling_kit d pn node w' kit) (preorder t)
     (fst (makeChangePin2Kits d t uname pn False w))"
  using makeChangePin2Kit_disabling [of d pn lg w uname]
    makeChangePin2Kits_disabling(1) [of d pn t uname w]
  by simp

text \<open>
  C7: \<open>makeDeletePin2Kits\<close> yields one kit per node in pre-order, each a \<open>DELETE\<close>
  request without a body whose patches clear \<open>pin2Key\<close> whatever the node held. The
  kits depend on the tree only through the \<open>loginId\<close>s of its nodes: any tree with the
  same \<open>loginId\<close>s in pre-order (the same tree after the factor was enabled, disabled
  or deleted) gives the same kit list, so a second call yields the same kits.
\<close>

theorem makeDeletePin2Kits_idempotent:
  "(makeDeletePin2Kits t :: 'j LoginKit list) =
     map (\<lambda>node. \<lparr> serverMethod = Some ''DELETE'',
                    serverPath = ''/v2/login/pin2'',
                    server = None,
                    stash = \<lparr> sp_pin2Key = Present None, sp_pin2TextBox = Missing \<rparr>,
                    login = \<lparr> lp_pin2Key = Present None, lp_pin = Missing \<rparr>,
                    kit_loginId = loginId node \<rparr>) (preorder t)
   \<and> (map loginId (preorder t') = map loginId (preorder t) \<longrightarrow>
        (makeDeletePin2Kits t' :: 'j LoginKit list) = makeDeletePin2Kits t)"
proof -
  have m: "\<And>x. (makeDeletePin2Kits x :: 'j LoginKit list) =
      map (\<lambda>i. \<lparr> serverMethod = Some ''DELETE'',
                    serverPath = ''/v2/login/pin2'',
                    server = None,
                    stash = \<lparr> sp_pin2Key = Present None, sp_pin2TextBox = Missing \<rparr>,
                    login = \<lparr> lp_pin2Key = Present None, lp_pin = Missing \<rparr>,
                    kit_loginId = i \<rparr>) (map loginId (preorder x))"
    by (simp add: makeDeletePin2Kits_map(1) makeDeletePin2Kit_def)
  show ?thesis
  proof (intro conjI impI)
    show "(makeDeletePin2Kits t :: 'j LoginKit list) =
      map (\<lambda>node. \<lparr> serverMethod = Some ''DELETE'',
                    serverPath = ''/v2/login/pin2'',
                    server = None,
                    stash = \<lparr> sp_pin2Key = Present None, sp_pin2TextBox = Missing \<rparr>,
                    login = \<lparr> lp_pin2Key = Present None, lp_pin = Missing \<rparr>,
                    kit_loginId = loginId node \<rparr>) (preorder t)"
      by (simp add: makeDeletePin2Kits_map(1) makeDeletePin2Kit_def)
  next
    assume "map loginId (preorder t') = map loginId (preorder t)"
    then show "(makeDeletePin2Kits t' :: 'j LoginKit list) = makeDeletePin2Kits t"
      by (simp only: m)
  qed
qed

text \<open>The demo tree, and the same tree with the factor enabled on other nodes.\<close>

theorem makeDeletePin2Kits_idempotent_witness:
  "(makeDeletePin2Kits
      (LoginTree ''root'' '''' (Some ''alice'') [1] (Some ''1234'') (Some [5])
         (Some [LoginTree ''c1'' ''other'' None [2] None None None,
                LoginTree ''c2'' ''app'' None [3] None (Some [6]) (Some [])]))
      :: unit LoginKit list)
   = makeDeletePin2Kits demo_tree"
  using makeDeletePin2Kits_idempotent [where 'j = unit, of demo_tree
      "LoginTree ''root'' '''' (Some ''alice'') [1] (Some ''1234'') (Some [5])
         (Some [LoginTree ''c1'' ''other'' None [2] None None None,
                LoginTree ''c2'' ''app'' None [3] None (Some [6]) (Some [])])"]
  by (simp add: demo_tree_def)

section \<open>Properties of the top-level operations\<close>

text \<open>
  C5: the policy of \<open>changePin\<close> for an existing account. With \<open>e\<close> the resolved
  flag (the argument when given, otherwise true exactly when the tree already has
  \<open>pin2Key\<close>, or a pin was supplied and the tree has no cached pin) and \<open>p\<close> the
  resolved pin (the argument when given, otherwise the tree's cached pin): without a
  pin, enabling fails with the error that asks for a PIN first, and disabling applies
  the delete kits of the whole tree; with a pin, the change kits are applied.
\<close>

theorem changePin_policy:
  assumes "accounts d w accountId = Some acct"
  shows "(let tree = acct_loginTree acct;
              e = (case enableLogin of
                     Some b \<Rightarrow> b
                   | None \<Rightarrow> pin2Key tree \<noteq> None \<or> (pn \<noteq> None \<and> pin tree = None));
              p = (case pn of Some x \<Rightarrow> Some x | None \<Rightarrow> pin tree)
          in (p = None \<and> e \<longrightarrow>
                changePin d applyK accountId pn enableLogin w =
                  (Inl (Error
                     ''Please change your PIN in the settings area above before enabling.''), w))
           \<and> (p = None \<and> \<not> e \<longrightarrow>
                changePin d applyK accountId pn enableLogin w =
                  applyK tree (makeDeletePin2Kits tree) w)
           \<and> (\<forall>x. p = Some x \<longrightarrow>
                changePin d applyK accountId pn enableLogin w =
                  applyK tree
                    (fst (makeChangePin2Kits d tree (acct_username acct) x e w))
                    (snd (makeChangePin2Kits d tree (acct_username acct) x e w))))"
  using assms
  by (simp add: changePin_def Let_def split: option.splits prod.splits)

text \<open>
  The three branches on the demo account, which has neither a cached pin nor a key.
\<close>

theorem changePin_policy_witness:
  "changePin demo_deps demo_applyKits ''acct'' None (Some True) 0 =
     (Inl (Error ''Please change your PIN in the settings area above before enabling.''), 0)
   \<and> changePin demo_deps demo_applyKits ''acct'' None None 0 =
       demo_applyKits demo_tree (makeDeletePin2Kits demo_tree) 0
   \<and> changePin demo_deps demo_applyKits ''acct'' (Some ''1234'') None 0 =
       demo_applyKits demo_tree
         (fst (makeChangePin2Kits demo_deps demo_tree ''alice'' ''1234'' True 0))
         (snd (makeChangePin2Kits demo_deps demo_tree ''alice'' ''1234'' True 0))"
proof -
  have a: "accounts demo_deps 0 ''acct'' =
      Some \<lparr> acct_loginTree = demo_tree, acct_username = ''alice'' \<rparr>"
    by (simp add: demo_deps_def)
  have t: "pin demo_tree = None" "pin2Key demo_tree = None"
    by (simp_all add: demo_tree_def)
  show ?thesis
    using changePin_policy [OF a, where pn = None and enableLogin = "Some True"
          and applyK = demo_applyKits]
      changePin_policy [OF a, where pn = None and enableLogin = None
          and applyK = demo_applyKits]
      changePin_policy [OF a, where pn = "Some ''1234''" and enableLogin = None
          and applyK = demo_applyKits]
    by (simp add: t Let_def)
qed

text \<open>
  C1, as the code has it: \<open>checkPin2\<close> resolves to false when the login has no
  username; it rejects with the error \<open>No PIN set locally for this account\<close> when no
  local credential is found; otherwise it sends the login request and resolves to
  true when the request succeeds and to false when it fails, whatever the failure.
\<close>

theorem checkPin2_outcomes:
  "(username lg = None \<longrightarrow> checkPin2 d loginFetch lg pn w = (Inr False, w)) \<and>
   (\<forall>u. username lg = Some u \<longrightarrow>
      (case findPin2Stash (getStash d w u) (appId lg) of
         None \<Rightarrow>
           checkPin2 d loginFetch lg pn w =
             (Inl (Error ''No PIN set locally for this account''), w)
       | Some st \<Rightarrow>
           (\<exists>key. stash_pin2Key st = Some key \<and>
              (let r = loginFetch ''POST'' ''/v2/login''
                         \<lparr> req_pin2Id = Some (pin2Id d key u),
                           req_pin2Auth = Some (pin2Auth d key pn),
                           req_otp = getLoginOtp d lg \<rparr> w
               in checkPin2 d loginFetch lg pn w = (Inr (\<not> isl (fst r)), snd r)))))"
  by (auto simp: checkPin2_def Let_def dest: findPin2Stash_has_key
        split: option.splits prod.splits sum.splits)

text \<open>
  The demo login with the right and with a wrong pin.
\<close>

theorem checkPin2_outcomes_witness:
  "checkPin2 demo_deps demo_loginFetch demo_login ''1234'' 0 = (Inr True, 1) \<and>
   checkPin2 demo_deps demo_loginFetch demo_login ''0000'' 0 = (Inr False, 1)"
  using checkPin2_outcomes [of demo_login demo_deps demo_loginFetch "''1234''" 0]
    checkPin2_outcomes [of demo_login demo_deps demo_loginFetch "''0000''" 0]
  by (simp add: demo_login_def demo_deps_def demo_stash_def findPin2Stash_def
        demo_loginFetch_def pin2Auth_def pin2Id_def)

text \<open>
  C1 as the specification words it fails: for a login whose stash has no local
  credential, \<open>checkPin2\<close> does not resolve to false, it rejects.
\<close>

theorem checkPin2_counterexample:
  "checkPin2 demo_deps demo_loginFetch demo_tree ''1234'' 0 =
     (Inl (Error ''No PIN set locally for this account''), 0)"
  by (simp add: checkPin2_def demo_tree_def demo_deps_def demo_stash_def findPin2Stash_def)

text \<open>
  C6: provided \<open>serverLogin\<close> does not itself reject with the not-enabled error,
  \<open>loginPin2\<close> fails with that error exactly when \<open>findPin2Stash\<close> finds nothing;
  otherwise the found node has a key, and \<open>loginPin2\<close> is the call of \<open>serverLogin\<close>
  with the request made of \<open>pin2Id\<close>, the keyed hash of the normalised username, and
  \<open>pin2Auth\<close>, the keyed hash of the pin, and nothing else. The decrypt step fails with
  the missing-data error when the reply has no \<open>pin2Box\<close> and otherwise decrypts
  \<open>pin2Box\<close> with the local key.
\<close>

theorem loginPin2_outcomes:
  assumes "\<forall>st req key.
     fst (serverLogin (getStash d w uname) st opts req (loginPin2_decrypt d key) w) \<noteq>
       Inl (Error ''PIN login is not enabled for this account on this device'')"
  shows "(fst (loginPin2 d serverLogin app uname pn opts w) =
            Inl (Error ''PIN login is not enabled for this account on this device'')
          \<longleftrightarrow> findPin2Stash (getStash d w uname) app = None) \<and>
         (\<forall>st. findPin2Stash (getStash d w uname) app = Some st \<longrightarrow>
            (\<exists>key. stash_pin2Key st = Some key \<and>
               loginPin2 d serverLogin app uname pn opts w =
                 serverLogin (getStash d w uname) st opts
                   \<lparr> req_pin2Id = Some (hmacSha256 d (utf8_parse d (fixUsername d uname)) key),
                     req_pin2Auth = Some (hmacSha256 d (utf8_parse d pn) key),
                     req_otp = None \<rparr>
                   (loginPin2_decrypt d key) w)) \<and>
         (\<forall>key reply.
            loginPin2_decrypt d key reply =
              (case reply_pin2Box reply of
                 None \<Rightarrow> Inl (Error ''Missing data for PIN v2 login'')
               | Some box \<Rightarrow> decrypt d box key))"
proof (intro conjI allI impI)
  show "fst (loginPin2 d serverLogin app uname pn opts w) =
            Inl (Error ''PIN login is not enabled for this account on this device'')
          \<longleftrightarrow> findPin2Stash (getStash d w uname) app = None"
    using assms
    by (auto simp: loginPin2_def Let_def dest: findPin2Stash_has_key split: option.splits)
next
  fix st assume "findPin2Stash (getStash d w uname) app = Some st"
  then show "\<exists>key. stash_pin2Key st = Some key \<and>
               loginPin2 d serverLogin app uname pn opts w =
                 serverLogin (getStash d w uname) st opts
                   \<lparr> req_pin2Id = Some (hmacSha256 d (utf8_parse d (fixUsername d uname)) key),
                     req_pin2Auth = Some (hmacSha256 d (utf8_parse d pn) key),
                     req_otp = None \<rparr>
                   (loginPin2_decrypt d key) w"
    by (auto simp: loginPin2_def Let_def pin2Id_def pin2Auth_def dest: findPin2Stash_has_key
          split: option.splits)
next
  fix key reply
  show "loginPin2_decrypt d key reply =
              (case reply_pin2Box reply of
                 None \<Rightarrow> Inl (Error ''Missing data for PIN v2 login'')
               | Some box \<Rightarrow> decrypt d box key)"
    by (simp add: loginPin2_decrypt_def)
qed


text \<open>
  The demo stash: an unknown \<open>appId\<close> is refused, the known one logs in.
\<close>

theorem loginPin2_outcomes_witness:
  "fst (loginPin2 demo_deps demo_serverLogin ''nope'' ''alice'' ''1234'' () 0) =
     Inl (Error ''PIN login is not enabled for this account on this device'') \<and>
   loginPin2 demo_deps demo_serverLogin ''app'' ''alice'' ''1234'' () 0 =
     (Inr (LoginTree ''c2'' ''app'' (Some ''alice'') [3] None (Some [7]) None), 1)"
proof -
  have h: "\<forall>st req key.
     fst (demo_serverLogin (getStash demo_deps 0 ''alice'') st () req
            (loginPin2_decrypt demo_deps key) 0) \<noteq>
       Inl (Error ''PIN login is not enabled for this account on this device'')"
    by (simp add: demo_serverLogin_def loginPin2_decrypt_def demo_deps_def)
  have f1: "findPin2Stash (getStash demo_deps 0 ''alice'') ''nope'' = None"
    by (simp add: demo_deps_def demo_stash_def findPin2Stash_def)
  have f2: "findPin2Stash (getStash demo_deps 0 ''alice'') ''app'' =
      Some (LoginStash ''c2'' ''app'' None (Some [7]) None None)"
    by (simp add: demo_deps_def demo_stash_def findPin2Stash_def)
  note t1 = loginPin2_outcomes [where d = demo_deps and serverLogin = demo_serverLogin
        and uname = "''alice''" and opts = "()" and w = 0
        and app = "''nope''" and pn = "''1234''", OF h]
  note t2 = loginPin2_outcomes [where d = demo_deps and serverLogin = demo_serverLogin
        and uname = "''alice''" and opts = "()" and w = 0
        and app = "''app''" and pn = "''1234''", OF h]
  from t1 f1 have a: "fst (loginPin2 demo_deps demo_serverLogin ''nope'' ''alice'' ''1234'' () 0) =
     Inl (Error ''PIN login is not enabled for this account on this device'')"
    by blast
  from t2 f2 obtain key where
    k: "stash_pin2Key (LoginStash ''c2'' ''app'' None (Some [7]) None None) = Some key" and
    r: "loginPin2 demo_deps demo_serverLogin ''app'' ''alice'' ''1234'' () 0 =
         demo_serverLogin (getStash demo_deps 0 ''alice'')
           (LoginStash ''c2'' ''app'' None (Some [7]) None None) ()
           \<lparr> req_pin2Id = Some (hmacSha256 demo_deps
                 (utf8_parse demo_deps (fixUsername demo_deps ''alice'')) key),
             req_pin2Auth = Some (hmacSha256 demo_deps (utf8_parse demo_deps ''1234'') key),
             req_otp = None \<rparr>
           (loginPin2_decrypt demo_deps key) 0"
    by blast
  from k have key: "key = [7]" by simp
  have b: "loginPin2 demo_deps demo_serverLogin ''app'' ''alice'' ''1234'' () 0 =
     (Inr (LoginTree ''c2'' ''app'' (Some ''alice'') [3] None (Some [7]) None), 1)"
    unfolding r key
    by (simp add: demo_serverLogin_def loginPin2_decrypt_def demo_deps_def demo_stash_def)
  from a b show ?thesis by simp
qed

section \<open>Properties of the Kit Engine\<close>

lemma applyKits_committed_prefix:
  assumes "\<forall>i<length pre. respond (st_sent s @ take i pre) (pre ! i) = None"
  shows "applyKits respond (pre @ rest) s =
           applyKits respond rest
             (s\<lparr> st_sent := st_sent s @ pre,
                st_stash := foldl (\<lambda>t kit. applyStashPatch (kit_loginId kit) (stash kit) t)
                              (st_stash s) pre,
                st_tree := foldl (\<lambda>t kit. applyLoginPatch (kit_loginId kit) (login kit) t)
                              (st_tree s) pre \<rparr>)"
  using assms
proof (induction pre arbitrary: s)
  case Nil
  then show ?case by simp
next
  case (Cons x xs)
  let ?s1 = "commitKit x (s\<lparr> st_sent := st_sent s @ [x] \<rparr>)"
  from Cons.prems have r0: "respond (st_sent s) x = None"
    by (auto dest: spec[of _ 0])
  have sent1: "st_sent ?s1 = st_sent s @ [x]"
    by (simp add: commitKit_def)
  have "\<forall>i<length xs. respond (st_sent ?s1 @ take i xs) (xs ! i) = None"
  proof (intro allI impI)
    fix i assume "i < length xs"
    then have "respond (st_sent s @ take (Suc i) (x # xs)) ((x # xs) ! Suc i) = None"
      using Cons.prems by (auto dest: spec[of _ "Suc i"])
    then show "respond (st_sent ?s1 @ take i xs) (xs ! i) = None"
      by (simp add: sent1)
  qed
  from Cons.IH[OF this]
  show ?case
    by (simp add: r0 Let_def commitKit_def)
qed

text \<open>
  C8: kits are processed in order. When every kit of \<open>pre\<close> is accepted by the server
  and the next kit \<open>k\<close> is refused with \<open>e\<close>, the call rejects with \<open>e\<close>; the stash
  and the tree hold exactly the patches of \<open>pre\<close>, folded in order (nothing is rolled
  back, and neither \<open>k\<close>'s patches nor those of the later kits are applied); the
  requests issued are those of \<open>pre\<close> and of \<open>k\<close>, so no later kit was sent.
\<close>

theorem applyKits_partial_failure:
  assumes "\<forall>i<length pre. respond (st_sent s @ take i pre) (pre ! i) = None"
    and "respond (st_sent s @ pre) k = Some e"
  shows "applyKits respond (pre @ k # post) s =
           (Inl e,
            s\<lparr> st_sent := st_sent s @ pre @ [k],
               st_stash := foldl (\<lambda>t kit. applyStashPatch (kit_loginId kit) (stash kit) t)
                             (st_stash s) pre,
               st_tree := foldl (\<lambda>t kit. applyLoginPatch (kit_loginId kit) (login kit) t)
                             (st_tree s) pre \<rparr>)"
  using assms(2)
  by (simp add: applyKits_committed_prefix[OF assms(1)] Let_def)

text \<open>
  Three delete kits of which the second is refused: the first is committed (the key of
  node \<open>c2\<close> is gone from the stash), two requests were sent.
\<close>

theorem applyKits_partial_failure_witness:
  "applyKits demo_respond demo_kits
     \<lparr> st_sent = [], st_stash = demo_stash, st_tree = demo_tree \<rparr> =
   (Inl (Error ''Network failure''),
    \<lparr> st_sent = take 2 demo_kits,
      st_stash =
        LoginStash ''root'' '''' (Some ''alice'') None None
          (Some [LoginStash ''c1'' ''other'' None None None None,
                 LoginStash ''c2'' ''app'' None None None None]),
      st_tree = demo_tree \<rparr>)"
proof -
  let ?k1 = "makeDeletePin2Kit (LoginTree ''c2'' ''app'' None [3] None None (Some []))
               :: ChangePin2Payload LoginKit"
  let ?k2 = "makeDeletePin2Kit (LoginTree ''c1'' ''other'' None [2] None (Some [9]) None)
               :: ChangePin2Payload LoginKit"
  let ?s = "\<lparr> st_sent = [], st_stash = demo_stash, st_tree = demo_tree \<rparr>
               :: ChangePin2Payload Stores"
  have h1: "\<forall>i<length [?k1]. demo_respond (st_sent ?s @ take i [?k1]) ([?k1] ! i) = None"
    by (simp add: demo_respond_def makeDeletePin2Kit_def)
  have h2: "demo_respond (st_sent ?s @ [?k1]) ?k2 = Some (Error ''Network failure'')"
    by (simp add: demo_respond_def makeDeletePin2Kit_def)
  show ?thesis
    using applyKits_partial_failure [OF h1 h2, of "[makeDeletePin2Kit demo_tree]"]
    by (simp add: demo_kits_def demo_stash_def demo_tree_def makeDeletePin2Kit_def
          merge_field_def)
qed

section \<open>Properties of server validation\<close>

lemma nil_in_conc: "[] \<in> conc A B \<longleftrightarrow> [] \<in> A \<and> [] \<in> B"
  by (auto simp: conc_def)

lemma cons_in_conc:
  "c # w \<in> conc A B \<longleftrightarrow>
     (\<exists>u v. w = u @ v \<and> c # u \<in> A \<and> v \<in> B) \<or> ([] \<in> A \<and> c # w \<in> B)"
  by (auto simp: conc_def Cons_eq_append_conv)

lemma cons_in_star:
  "c # w \<in> star A \<longleftrightarrow> (\<exists>u v. w = u @ v \<and> c # u \<in> A \<and> v \<in> star A)"
proof
  assume "c # w \<in> star A"
  then show "\<exists>u v. w = u @ v \<and> c # u \<in> A \<and> v \<in> star A"
  proof (induction "c # w" rule: star.induct)
    case (star_app xs ys)
    then show ?case
      by (cases xs) auto
  qed
next
  assume "\<exists>u v. w = u @ v \<and> c # u \<in> A \<and> v \<in> star A"
  then obtain u v where "w = u @ v" "c # u \<in> A" "v \<in> star A" by blast
  then show "c # w \<in> star A"
    using star_app[of "c # u" A v] by simp
qed

lemma nullable_lang: "nullable r \<longleftrightarrow> [] \<in> lang r"
  by (induction r) (auto simp: nil_in_conc star_nil)

lemma in_conc: "w \<in> conc A B \<longleftrightarrow> (\<exists>u v. w = u @ v \<and> u \<in> A \<and> v \<in> B)"
  by (auto simp: conc_def)

lemma deriv_lang: "w \<in> lang (deriv c r) \<longleftrightarrow> c # w \<in> lang r"
proof (induction r arbitrary: w)
  case (Cat r s)
  have "w \<in> lang (deriv c (Cat r s)) \<longleftrightarrow>
      (\<exists>u v. w = u @ v \<and> u \<in> lang (deriv c r) \<and> v \<in> lang s) \<or>
      (nullable r \<and> w \<in> lang (deriv c s))"
    by (auto simp: in_conc)
  also have "\<dots> \<longleftrightarrow>
      (\<exists>u v. w = u @ v \<and> c # u \<in> lang r \<and> v \<in> lang s) \<or>
      ([] \<in> lang r \<and> c # w \<in> lang s)"
    by (simp add: Cat.IH nullable_lang)
  also have "\<dots> \<longleftrightarrow> c # w \<in> lang (Cat r s)"
    by (simp add: cons_in_conc)
  finally show ?case .
next
  case (Rep r)
  have "w \<in> lang (deriv c (Rep r)) \<longleftrightarrow>
      (\<exists>u v. w = u @ v \<and> u \<in> lang (deriv c r) \<and> v \<in> star (lang r))"
    by (simp add: in_conc)
  also have "\<dots> \<longleftrightarrow> (\<exists>u v. w = u @ v \<and> c # u \<in> lang r \<and> v \<in> star (lang r))"
    by (simp add: Rep.IH)
  also have "\<dots> \<longleftrightarrow> c # w \<in> lang (Rep r)"
    by (simp add: cons_in_star)
  finally show ?case .
qed auto

lemma matches_lang: "matches r w \<longleftrightarrow> w \<in> lang r"
  by (induction w arbitrary: r) (simp_all add: nullable_lang deriv_lang)

lemma lang_Str: "lang (Str s) = {s}"
  by (induction s) (auto simp: conc_def)

lemma star_concat: "w \<in> star A \<longleftrightarrow> (\<exists>ws. w = concat ws \<and> set ws \<subseteq> A)"
proof
  assume "w \<in> star A"
  then show "\<exists>ws. w = concat ws \<and> set ws \<subseteq> A"
  proof (induction rule: star.induct)
    case star_nil
    show ?case by (rule exI[of _ "[]"]) simp
  next
    case (star_app xs ys)
    then obtain ws where "ys = concat ws" "set ws \<subseteq> A" by blast
    with star_app.hyps(1) show ?case
      by (intro exI[of _ "xs # ws"]) simp
  qed
next
  assume "\<exists>ws. w = concat ws \<and> set ws \<subseteq> A"
  then obtain ws where "w = concat ws" "set ws \<subseteq> A" by blast
  then show "w \<in> star A"
    by (induction ws arbitrary: w) (auto intro: star_nil star_app)
qed

lemma star_chars: "w \<in> star {[c] | c. P c} \<longleftrightarrow> (\<forall>c \<in> set w. P c)"
proof
  assume "w \<in> star {[c] | c. P c}"
  then show "\<forall>c \<in> set w. P c"
    by (induction rule: star.induct) auto
next
  assume "\<forall>c \<in> set w. P c"
  then show "w \<in> star {[c] | c. P c}"
  proof (induction w)
    case Nil
    show ?case by (rule star_nil)
  next
    case (Cons a w)
    then have "[a] \<in> {[c] | c. P c}" "w \<in> star {[c] | c. P c}" by auto
    then show ?case using star_app[of "[a]" _ w] by simp
  qed
qed

lemma lang_label: "l \<in> lang (Rep1 (OneOf cls)) \<longleftrightarrow> l \<noteq> [] \<and> (\<forall>c \<in> set l. in_class c cls)"
proof (cases l)
  case Nil
  then show ?thesis by (simp add: Rep1_def nil_in_conc)
next
  case (Cons a w)
  have "a # w \<in> conc {[c] | c. in_class c cls} (star {[c] | c. in_class c cls})
          \<longleftrightarrow> in_class a cls \<and> w \<in> star {[c] | c. in_class c cls}"
    by (auto simp: cons_in_conc)
  then show ?thesis
    by (simp add: Cons Rep1_def star_chars)
qed

lemma lang_labels:
  "w \<in> lang (Rep (Cat (Rep1 (OneOf cls)) (Chr CHR ''.''))) \<longleftrightarrow>
     (\<exists>labels. w = concat (map (\<lambda>l. l @ ''.'') labels) \<and>
        (\<forall>l \<in> set labels. l \<noteq> [] \<and> (\<forall>c \<in> set l. in_class c cls)))"
proof
  assume "w \<in> lang (Rep (Cat (Rep1 (OneOf cls)) (Chr CHR ''.'')))"
  then obtain ws where ws: "w = concat ws"
      "set ws \<subseteq> conc (lang (Rep1 (OneOf cls))) {''.''}"
    by (auto simp: star_concat)
  have "\<forall>x \<in> set ws. \<exists>l. x = l @ ''.'' \<and> l \<in> lang (Rep1 (OneOf cls))"
    using ws(2) by (auto simp: conc_def)
  then have "\<exists>labels. ws = map (\<lambda>l. l @ ''.'') labels \<and>
      (\<forall>l \<in> set labels. l \<in> lang (Rep1 (OneOf cls)))"
  proof (induction ws)
    case Nil
    show ?case by simp
  next
    case (Cons x xs)
    then obtain l labels where "x = l @ ''.''" "l \<in> lang (Rep1 (OneOf cls))"
      "xs = map (\<lambda>l. l @ ''.'') labels" "\<forall>l \<in> set labels. l \<in> lang (Rep1 (OneOf cls))"
      by auto
    then show ?case
      by (intro exI[of _ "l # labels"]) simp
  qed
  then show "\<exists>labels. w = concat (map (\<lambda>l. l @ ''.'') labels) \<and>
        (\<forall>l \<in> set labels. l \<noteq> [] \<and> (\<forall>c \<in> set l. in_class c cls))"
    using ws(1) lang_label[of _ cls] by blast
next
  assume "\<exists>labels. w = concat (map (\<lambda>l. l @ ''.'') labels) \<and>
        (\<forall>l \<in> set labels. l \<noteq> [] \<and> (\<forall>c \<in> set l. in_class c cls))"
  then obtain labels where l: "w = concat (map (\<lambda>l. l @ ''.'') labels)"
      "\<forall>l \<in> set labels. l \<in> lang (Rep1 (OneOf cls))"
    using lang_label[of _ cls] by blast
  have "set (map (\<lambda>l. l @ ''.'') labels) \<subseteq> conc (lang (Rep1 (OneOf cls))) {''.''}"
    using l(2) by (auto simp: conc_def)
  then have "concat (map (\<lambda>l. l @ ''.'') labels) \<in>
      star (conc (lang (Rep1 (OneOf cls))) {''.''})"
    unfolding star_concat by blast
  then show "w \<in> lang (Rep (Cat (Rep1 (OneOf cls)) (Chr CHR ''.'')))"
    using l(1) by simp
qed

lemma lang_suffix:
  "s \<in> lang (Cat (Str ''edge'') (Cat (Opt (Str ''test'')) (Cat (Chr CHR ''.'') (Str ''app''))))
     \<longleftrightarrow> s = ''edge.app'' \<or> s = ''edgetest.app''"
proof -
  have "lang (Cat (Str ''edge'') (Cat (Opt (Str ''test'')) (Cat (Chr CHR ''.'') (Str ''app''))))
      = conc {''edge''} (conc ({''test''} \<union> {[]}) (conc {''.''} {''app''}))"
    unfolding lang.simps Opt_def lang_Str by simp
  also have "\<dots> = {''edge.app'', ''edgetest.app''}"
    by (auto simp: conc_def)
  finally show ?thesis by auto
qed

lemma matches_host_regex:
  "matches host_regex h \<longleftrightarrow>
     (\<exists>labels sfx. h = concat (map (\<lambda>l. l @ ''.'') labels) @ sfx \<and>
        (\<forall>l \<in> set labels. l \<noteq> [] \<and> (\<forall>c \<in> set l. in_class c label_class)) \<and>
        (sfx = ''edge.app'' \<or> sfx = ''edgetest.app''))"
proof -
  have "matches host_regex h \<longleftrightarrow>
      (\<exists>p sfx. h = p @ sfx \<and>
         p \<in> lang (Rep (Cat (Rep1 (OneOf label_class)) (Chr CHR ''.''))) \<and>
         sfx \<in> lang (Cat (Str ''edge'') (Cat (Opt (Str ''test''))
                  (Cat (Chr CHR ''.'') (Str ''app'')))))"
    unfolding matches_lang host_regex_def by (auto simp: conc_def)
  also have "\<dots> \<longleftrightarrow>
     (\<exists>labels sfx. h = concat (map (\<lambda>l. l @ ''.'') labels) @ sfx \<and>
        (\<forall>l \<in> set labels. l \<noteq> [] \<and> (\<forall>c \<in> set l. in_class c label_class)) \<and>
        (sfx = ''edge.app'' \<or> sfx = ''edgetest.app''))"
    unfolding lang_labels lang_suffix by blast
  finally show ?thesis .
qed

text \<open>
  C10: \<open>validateServer\<close> returns normally exactly when the string parses as a URL whose
  hostname is \<open>localhost\<close> over \<open>http:\<close> or \<open>https:\<close>, or whose protocol is
  \<open>https:\<close> and whose hostname is a sequence of zero or more non-empty labels of
  letters, digits, underscores and hyphens, each followed by a dot, and then
  \<open>edge.app\<close> or \<open>edgetest.app\<close>; in every other case it throws. When it throws on
  the \<open>authServer\<close> in force (the option, or the default), \<open>makeContext\<close> rejects and
  the world is untouched: the rest of \<open>makeContext\<close> never runs.
\<close>

theorem validateServer_accepts:
  "(validateServer parseURL srv = Inr () \<longleftrightarrow>
      (\<exists>url. parseURL srv = Some url \<and>
         ((hostname url = ''localhost'' \<and>
             (protocol url = ''http:'' \<or> protocol url = ''https:'')) \<or>
          (protocol url = ''https:'' \<and>
             (\<exists>labels sfx.
                hostname url = concat (map (\<lambda>l. l @ ''.'') labels) @ sfx \<and>
                (\<forall>l \<in> set labels. l \<noteq> [] \<and> (\<forall>c \<in> set l. in_class c label_class)) \<and>
                (sfx = ''edge.app'' \<or> sfx = ''edgetest.app''))))))
   \<and> (validateServer parseURL srv \<noteq> Inr () \<longrightarrow> (\<exists>e. validateServer parseURL srv = Inl e))
   \<and> (validateServer parseURL
         (case opt_authServer opts of None \<Rightarrow> ''https://login.edge.app/api'' | Some a \<Rightarrow> a)
         \<noteq> Inr ()
       \<longrightarrow> (\<exists>e. makeContext parseURL start opts w = (Inl e, w)))"
proof (intro conjI impI)
  show "validateServer parseURL srv = Inr () \<longleftrightarrow>
      (\<exists>url. parseURL srv = Some url \<and>
         ((hostname url = ''localhost'' \<and>
             (protocol url = ''http:'' \<or> protocol url = ''https:'')) \<or>
          (protocol url = ''https:'' \<and>
             (\<exists>labels sfx.
                hostname url = concat (map (\<lambda>l. l @ ''.'') labels) @ sfx \<and>
                (\<forall>l \<in> set labels. l \<noteq> [] \<and> (\<forall>c \<in> set l. in_class c label_class)) \<and>
                (sfx = ''edge.app'' \<or> sfx = ''edgetest.app'')))))"
  proof (cases "parseURL srv")
    case None
    then show ?thesis by (simp add: validateServer_def)
  next
    case (Some url)
    then show ?thesis
      unfolding validateServer_def matches_host_regex by auto
  qed
next
  assume "validateServer parseURL srv \<noteq> Inr ()"
  then show "\<exists>e. validateServer parseURL srv = Inl e"
    by (cases "validateServer parseURL srv") auto
next
  assume "validateServer parseURL
         (case opt_authServer opts of None \<Rightarrow> ''https://login.edge.app/api'' | Some a \<Rightarrow> a)
         \<noteq> Inr ()"
  then show "\<exists>e. makeContext parseURL start opts w = (Inl e, w)"
    by (auto simp: makeContext_def Let_def split: option.splits sum.splits)
qed

text \<open>
  An accepted production host, an accepted local host, and the same production host
  over plain \<open>http:\<close>, which is refused and makes \<open>makeContext\<close> reject.
\<close>

theorem validateServer_accepts_witness:
  "validateServer demo_url ''https://login.edge.app/api'' = Inr () \<and>
   validateServer demo_url ''http://localhost:8080'' = Inr () \<and>
   (\<exists>e. validateServer demo_url ''http://login.edge.app/api'' = Inl e) \<and>
   (\<exists>e. makeContext demo_url demo_start
          \<lparr> opt_apiKey = Some ''key'', opt_authServer = Some ''http://login.edge.app/api'' \<rparr>
          (0::nat) = (Inl e, 0))"
proof -
  have u1: "demo_url ''https://login.edge.app/api'' =
      Some \<lparr> protocol = ''https:'', hostname = ''login.edge.app'' \<rparr>"
    by (simp add: demo_url_def)
  have u2: "demo_url ''http://localhost:8080'' =
      Some \<lparr> protocol = ''http:'', hostname = ''localhost'' \<rparr>"
    by (simp add: demo_url_def)
  have u3: "demo_url ''http://login.edge.app/api'' =
      Some \<lparr> protocol = ''http:'', hostname = ''login.edge.app'' \<rparr>"
    by (simp add: demo_url_def)
  have ex: "\<exists>labels sfx.
      ''login.edge.app'' = concat (map (\<lambda>l. l @ ''.'') labels) @ sfx \<and>
      (\<forall>l \<in> set labels. l \<noteq> [] \<and> (\<forall>c \<in> set l. in_class c label_class)) \<and>
      (sfx = ''edge.app'' \<or> sfx = ''edgetest.app'')"
    by (rule exI[of _ "[''login'']"], rule exI[of _ "''edge.app''"])
       (simp add: in_class_def label_class_def)
  have a: "validateServer demo_url ''https://login.edge.app/api'' = Inr ()"
    using validateServer_accepts [of demo_url "''https://login.edge.app/api''"
        "\<lparr> opt_apiKey = None, opt_authServer = None \<rparr>" demo_start "0::nat"] u1 ex
    by simp
  have b: "validateServer demo_url ''http://localhost:8080'' = Inr ()"
    using validateServer_accepts [of demo_url "''http://localhost:8080''"
        "\<lparr> opt_apiKey = None, opt_authServer = None \<rparr>" demo_start "0::nat"] u2
    by simp
  have n: "validateServer demo_url ''http://login.edge.app/api'' \<noteq> Inr ()"
    using validateServer_accepts [of demo_url "''http://login.edge.app/api''"
        "\<lparr> opt_apiKey = None, opt_authServer = None \<rparr>" demo_start "0::nat"] u3
    by simp
  have c: "\<exists>e. validateServer demo_url ''http://login.edge.app/api'' = Inl e"
    using validateServer_accepts [of demo_url "''http://login.edge.app/api''"
        "\<lparr> opt_apiKey = None, opt_authServer = None \<rparr>" demo_start "0::nat"] n
    by blast
  have d: "\<exists>e. makeContext demo_url demo_start
          \<lparr> opt_apiKey = Some ''key'', opt_authServer = Some ''http://login.edge.app/api'' \<rparr>
          (0::nat) = (Inl e, 0)"
    using validateServer_accepts [of demo_url "''http://localhost:8080''"
        "\<lparr> opt_apiKey = Some ''key'', opt_authServer = Some ''http://login.edge.app/api'' \<rparr>"
        demo_start "0::nat"] n
    by simp
  from a b c d show ?thesis by blast
qed

end
